theory Spec2Isabelle
  imports Complex_Main
begin

section \<open>The values a caller can pass to the constructor\<close>

text \<open>
  A JavaScript number is NaN, an infinity or a finite double. Every finite double is a
  rational number, and the two tests the constructor makes (is it integral, is it below
  one) are exact on doubles, so the finite numbers are modelled as rationals; negative
  zero and zero are the same rational, and both tests treat them alike.
\<close>

datatype js_number = NaN | PosInfinity | NegInfinity | Finite rat

datatype js_value =
    JSUndefined
  | JSNull
  | JSBoolean bool
  | JSNumber js_number
  | JSString string
  | JSBigInt int
  | JSObject

text \<open>
  \<^verbatim>\<open>Number.isInteger(v)\<close> of the language: false unless \<open>v\<close> has type Number, false
  for NaN and the infinities, and otherwise true exactly when
  \<open>floor(abs(v))\<close> equals \<open>abs(v)\<close>. It never coerces its argument.
\<close>

fun Number_isInteger :: "js_value \<Rightarrow> bool" where
  "Number_isInteger (JSNumber (Finite q)) = (of_int \<lfloor>\<bar>q\<bar>\<rfloor> = \<bar>q\<bar>)"
| "Number_isInteger _ = False"

text \<open>The comparison \<^verbatim>\<open>x < y\<close> of two Numbers: false as soon as one of them is NaN.\<close>

fun number_less :: "js_number \<Rightarrow> js_number \<Rightarrow> bool" where
  "number_less NaN _ = False"
| "number_less _ NaN = False"
| "number_less (Finite x) (Finite y) = (x < y)"
| "number_less NegInfinity NegInfinity = False"
| "number_less NegInfinity _ = True"
| "number_less _ NegInfinity = False"
| "number_less PosInfinity _ = False"
| "number_less _ PosInfinity = True"

text \<open>
  \<^verbatim>\<open>a < b\<close> on values. Only the comparison of two Numbers is modelled: the constructor
  compares \<open>timeout\<close> with \<open>1\<close> after \<open>Number.isInteger\<close> has accepted it, so no other
  operand reaches this function there (lemma \<open>Number_isInteger_is_finite_number\<close> below),
  and the coercions JavaScript applies to other operands are left out.
\<close>

fun less_than :: "js_value \<Rightarrow> js_value \<Rightarrow> bool" where
  "less_than (JSNumber x) (JSNumber y) = number_less x y"
| "less_than _ _ = False"

section \<open>The timer instance and the run-time it lives in\<close>

datatype timer_state = SET | RUNNING | DONE | CANCELLED

datatype error =
    ERROR_SIMPLE_TIMER_TIMEOUT_TYPE_INVALID
  | ERROR_SIMPLE_TIMER_TIMEOUT_OUT_OF_BOUNDS
  | ERROR_SIMPLE_TIMER_NOT_IN_SET_OR_RUNNING_STATES
  | ERROR_SIMPLE_TIMER_NOT_RUNNING

text \<open>The two event names \<open>start\<close> and \<open>cancel\<close> use on the instance's emitter.\<close>

datatype event_name = timerup | timercancelled

text \<open>
  The two arrow functions \<open>start\<close> registers with \<open>once\<close>. Each closes over the
  \<open>resolve\<close> function of the promise being created; the argument is that promise.
\<close>

datatype listener = timerup_listener nat | timercancelled_listener nat

text \<open>The arrow function handed to \<open>setTimeout\<close>: it emits \<open>timerup\<close>.\<close>

datatype callback = emit_timerup

datatype promise = Pending | Fulfilled timer_state

text \<open>
  The first five fields are the private fields of the instance; \<open>None\<close> is \<open>null\<close>.
  Promises and pending timeouts are objects of the run-time, referred to by their
  position in \<open>promises\<close> and by the number \<open>setTimeout\<close> handed out. The class keeps
  all five fields private, so nothing but its own methods, and the run-time firing a
  pending timeout, acts on this state. \<open>resolveCalls\<close> records every call the
  listeners make to a promise's \<open>resolve\<close> function, in order.
\<close>

record world =
  timerTimeout :: js_value
  timerState :: timer_state
  timerEmitter :: "(event_name \<times> listener) list"
  timerPromise :: "nat option"
  timerHandle :: "nat option"
  promises :: "promise list"
  timeouts :: "(nat \<times> callback \<times> js_value) list"
  nextTimeout :: nat
  resolveCalls :: "(nat \<times> timer_state) list"

subsection \<open>Promises\<close>

text \<open>
  \<open>resolve(v)\<close> of promise \<open>p\<close>: it settles a pending promise and does nothing to a
  settled one; the call itself is recorded either way.
\<close>

definition resolve :: "nat \<Rightarrow> timer_state \<Rightarrow> world \<Rightarrow> world" where
  "resolve p v w =
     w\<lparr>promises :=
         (if p < length (promises w) \<and> promises w ! p = Pending
          then (promises w)[p := Fulfilled v] else promises w),
       resolveCalls := resolveCalls w @ [(p, v)]\<rparr>"

subsection \<open>The event emitter\<close>

fun run_listener :: "listener \<Rightarrow> world \<Rightarrow> world" where
  "run_listener (timerup_listener p) w =
     (let w1 = w\<lparr>timerHandle := None\<rparr>;
          w2 = w1\<lparr>timerPromise := None\<rparr>;
          w3 = w2\<lparr>timerState := DONE\<rparr>
      in resolve p (timerState w3) w3)"
| "run_listener (timercancelled_listener p) w =
     (let w1 = w\<lparr>timerHandle := None\<rparr>;
          w2 = w1\<lparr>timerPromise := None\<rparr>;
          w3 = w2\<lparr>timerState := CANCELLED\<rparr>
      in resolve p (timerState w3) w3)"

definition once :: "event_name \<Rightarrow> listener \<Rightarrow> world \<Rightarrow> world" where
  "once name l w = w\<lparr>timerEmitter := timerEmitter w @ [(name, l)]\<rparr>"

text \<open>
  \<open>emit\<close> calls, in the order of registration, the listeners registered for the name
  when it starts; a listener registered with \<open>once\<close> is taken off the emitter just
  before it is called. The calls are synchronous: \<open>emit\<close> returns after the last one.
\<close>

fun call_listeners :: "(event_name \<times> listener) list \<Rightarrow> world \<Rightarrow> world" where
  "call_listeners [] w = w"
| "call_listeners ((name, l) # ls) w =
     call_listeners ls (run_listener l (w\<lparr>timerEmitter := remove1 (name, l) (timerEmitter w)\<rparr>))"

definition emit :: "event_name \<Rightarrow> world \<Rightarrow> world" where
  "emit name w = call_listeners (filter (\<lambda>e. fst e = name) (timerEmitter w)) w"

subsection \<open>The run-time's delayed execution\<close>

text \<open>
  \<open>setTimeout\<close> registers the callback under a fresh handle and returns the handle;
  \<open>clearTimeout\<close> drops the registration of a handle, and does nothing for \<open>null\<close>
  or for a handle that is no longer pending.
\<close>

definition setTimeout :: "callback \<Rightarrow> js_value \<Rightarrow> world \<Rightarrow> nat \<times> world" where
  "setTimeout cb delay w =
     (nextTimeout w,
      w\<lparr>timeouts := timeouts w @ [(nextTimeout w, cb, delay)],
        nextTimeout := Suc (nextTimeout w)\<rparr>)"

definition clearTimeout :: "nat option \<Rightarrow> world \<Rightarrow> world" where
  "clearTimeout h w =
     (case h of None \<Rightarrow> w
      | Some i \<Rightarrow> w\<lparr>timeouts := filter (\<lambda>e. fst e \<noteq> i) (timeouts w)\<rparr>)"

fun run_callback :: "callback \<Rightarrow> world \<Rightarrow> world" where
  "run_callback emit_timerup w = emit timerup w"

text \<open>
  The run-time fires the timeout registered under handle \<open>h\<close>: if it is still pending,
  the registration is removed and its callback runs to completion; a handle that is
  not pending cannot fire. When a pending timeout fires is the run-time's choice.
\<close>

definition expire :: "nat \<Rightarrow> world \<Rightarrow> world" where
  "expire h w =
     (case map_of (timeouts w) h of
        None \<Rightarrow> w
      | Some (cb, delay) \<Rightarrow>
          run_callback cb (w\<lparr>timeouts := filter (\<lambda>e. fst e \<noteq> h) (timeouts w)\<rparr>))"

section \<open>The class\<close>

text \<open>
  \<open>new SimpleTimer(timeout)\<close>: either throws or yields the instance, in a run-time
  with no promise and no pending timeout of the instance's yet.
\<close>

definition "constructor" :: "js_value \<Rightarrow> error + world" where
  "constructor timeout =
     (if Number_isInteger timeout \<noteq> True then Inl ERROR_SIMPLE_TIMER_TIMEOUT_TYPE_INVALID
      else if less_than timeout (JSNumber (Finite 1)) then Inl ERROR_SIMPLE_TIMER_TIMEOUT_OUT_OF_BOUNDS
      else Inr \<lparr>timerTimeout = timeout, timerState = SET, timerEmitter = [],
                timerPromise = None, timerHandle = None,
                promises = [], timeouts = [], nextTimeout = 0, resolveCalls = []\<rparr>)"

text \<open>
  \<open>start()\<close> returns a pair: what the call returns (\<open>Inr\<close>, the value of
  \<open>this.#timerPromise\<close>, a promise or \<open>null\<close>) or throws (\<open>Inl\<close>), and the state it
  leaves. The promise's executor runs inside \<open>new Promise\<close>, so both listeners are
  registered before the promise is stored in the field.
\<close>

definition start :: "world \<Rightarrow> (error + nat option) \<times> world" where
  "start w =
     (if timerState w = RUNNING then (Inr (timerPromise w), w)
      else if timerState w \<noteq> SET then (Inl ERROR_SIMPLE_TIMER_NOT_IN_SET_OR_RUNNING_STATES, w)
      else
        (let p = length (promises w);
             w1 = w\<lparr>promises := promises w @ [Pending]\<rparr>;
             w2 = once timerup (timerup_listener p) w1;
             w3 = once timercancelled (timercancelled_listener p) w2;
             w4 = w3\<lparr>timerPromise := Some p\<rparr>;
             (h, w5) = setTimeout emit_timerup (timerTimeout w4) w4;
             w6 = w5\<lparr>timerHandle := Some h\<rparr>;
             w7 = w6\<lparr>timerState := RUNNING\<rparr>
         in (Inr (timerPromise w7), w7)))"

definition cancel :: "world \<Rightarrow> (error + nat option) \<times> world" where
  "cancel w =
     (if timerState w \<noteq> RUNNING then (Inl ERROR_SIMPLE_TIMER_NOT_RUNNING, w)
      else
        (let w1 = clearTimeout (timerHandle w) w;
             w2 = emit timercancelled w1
         in (Inr (timerPromise w2), w2)))"

section \<open>Histories of one instance\<close>

text \<open>
  What can happen to an instance after its construction: a caller calls \<open>start()\<close> or
  \<open>cancel()\<close>, or the run-time fires the timeout of a handle. Each runs to completion
  before the next begins.
\<close>

datatype event = Start | Cancel | Expire nat

fun step :: "event \<Rightarrow> world \<Rightarrow> world" where
  "step Start w = snd (start w)"
| "step Cancel w = snd (cancel w)"
| "step (Expire h) w = expire h w"

fun exec :: "event list \<Rightarrow> world \<Rightarrow> world" where
  "exec [] w = w"
| "exec (e # es) w = exec es (step e w)"

text \<open>The value returned by the first call of \<open>start()\<close> in a history that did not throw.\<close>

fun first_start :: "event list \<Rightarrow> world \<Rightarrow> nat option option" where
  "first_start [] w = None"
| "first_start (Start # es) w =
     (case fst (start w) of Inr r \<Rightarrow> Some r | Inl _ \<Rightarrow> first_start es (snd (start w)))"
| "first_start (e # es) w = first_start es (step e w)"

text \<open>
  The instance right after a successful \<open>new SimpleTimer(t)\<close>, and the instance
  \<open>new SimpleTimer(200)\<close> that the README and the tests use.
\<close>

abbreviation fresh_timer :: "js_value \<Rightarrow> world" where
  "fresh_timer t \<equiv>
     \<lparr>timerTimeout = t, timerState = SET, timerEmitter = [],
      timerPromise = None, timerHandle = None,
      promises = [], timeouts = [], nextTimeout = 0, resolveCalls = []\<rparr>"

abbreviation timer_200 :: world where
  "timer_200 \<equiv> fresh_timer (JSNumber (Finite 200))"

section \<open>The invariant of an instance\<close>

text \<open>
  What holds of an instance between two events, state by state. While the timer runs,
  its promise is pending, exactly its own timeout is pending in the run-time, and both
  listeners are registered; in a final state nothing is pending, and the one call of
  \<open>resolve\<close> ever made has settled the promise with that state.
\<close>

definition timer_inv :: "world \<Rightarrow> bool" where
  "timer_inv w =
     (case timerState w of
        SET \<Rightarrow>
          timerPromise w = None \<and> timerHandle w = None \<and> timerEmitter w = [] \<and>
          timeouts w = [] \<and> resolveCalls w = []
      | RUNNING \<Rightarrow>
          (\<exists>p h. timerPromise w = Some p \<and> timerHandle w = Some h \<and>
             p < length (promises w) \<and> promises w ! p = Pending \<and>
             timerEmitter w = [(timerup, timerup_listener p), (timercancelled, timercancelled_listener p)] \<and>
             timeouts w = [(h, emit_timerup, timerTimeout w)] \<and> resolveCalls w = [])
      | DONE \<Rightarrow>
          timerPromise w = None \<and> timerHandle w = None \<and> timeouts w = [] \<and>
          (\<exists>p. p < length (promises w) \<and> promises w ! p = Fulfilled DONE \<and>
             resolveCalls w = [(p, DONE)])
      | CANCELLED \<Rightarrow>
          timerPromise w = None \<and> timerHandle w = None \<and> timeouts w = [] \<and>
          (\<exists>p. p < length (promises w) \<and> promises w ! p = Fulfilled CANCELLED \<and>
             resolveCalls w = [(p, CANCELLED)]))"

section \<open>Construction\<close>

text \<open>
  \<open>Number.isInteger\<close> accepts exactly the Numbers whose value is a whole number
  (an integer, of any size and sign).
\<close>

lemma Number_isInteger_iff:
  "Number_isInteger v \<longleftrightarrow> (\<exists>n::int. v = JSNumber (Finite (of_int n)))"
proof
  assume "Number_isInteger v"
  then obtain q where v: "v = JSNumber (Finite q)" and q: "of_int \<lfloor>\<bar>q\<bar>\<rfloor> = \<bar>q\<bar>"
    by (cases v rule: Number_isInteger.cases) auto
  from q have "\<bar>q\<bar> \<in> \<int>" by (metis Ints_of_int)
  then have "q \<in> \<int>" by (simp add: abs_rat_def split: if_splits)
  then obtain n :: int where "q = of_int n" by (auto elim: Ints_cases)
  with v show "\<exists>n::int. v = JSNumber (Finite (of_int n))" by blast
next
  assume "\<exists>n::int. v = JSNumber (Finite (of_int n))"
  then obtain n :: int where "v = JSNumber (Finite (of_int n))" by blast
  then show "Number_isInteger v"
    by (simp flip: of_int_abs)
qed

lemma Number_isInteger_is_finite_number:
  "Number_isInteger v \<Longrightarrow> \<exists>q. v = JSNumber (Finite q)"
  by (auto simp: Number_isInteger_iff)

lemma constructor_whole:
  "constructor (JSNumber (Finite (of_int n))) =
     (if n < 1 then Inl ERROR_SIMPLE_TIMER_TIMEOUT_OUT_OF_BOUNDS
      else Inr \<lparr>timerTimeout = JSNumber (Finite (of_int n)), timerState = SET, timerEmitter = [],
                timerPromise = None, timerHandle = None,
                promises = [], timeouts = [], nextTimeout = 0, resolveCalls = []\<rparr>)"
proof -
  have "Number_isInteger (JSNumber (Finite (of_int n)))"
    unfolding Number_isInteger_iff by blast
  moreover have "less_than (JSNumber (Finite (of_int n))) (JSNumber (Finite 1)) = (n < 1)"
    by simp
  ultimately show ?thesis
    unfolding constructor_def by simp
qed

lemma constructor_not_whole:
  "\<nexists>n::int. v = JSNumber (Finite (of_int n)) \<Longrightarrow>
   constructor v = Inl ERROR_SIMPLE_TIMER_TIMEOUT_TYPE_INVALID"
  by (simp add: constructor_def Number_isInteger_iff)

section \<open>The methods, state by state\<close>

lemma constructor_inv: "constructor t = Inr w \<Longrightarrow> timer_inv w \<and> timerState w = SET"
  by (auto simp: constructor_def timer_inv_def split: if_splits)

lemma start_RUNNING: "timerState w = RUNNING \<Longrightarrow> start w = (Inr (timerPromise w), w)"
  by (simp add: start_def)

lemma start_terminal:
  "timerState w = DONE \<or> timerState w = CANCELLED \<Longrightarrow>
   start w = (Inl ERROR_SIMPLE_TIMER_NOT_IN_SET_OR_RUNNING_STATES, w)"
  by (auto simp: start_def)

lemma start_SET:
  assumes "timer_inv w" "timerState w = SET"
  shows "fst (start w) = Inr (Some (length (promises w)))"
    and "timer_inv (snd (start w))"
    and "timerState (snd (start w)) = RUNNING"
    and "timerPromise (snd (start w)) = Some (length (promises w))"
  using assms
  by (simp_all add: start_def timer_inv_def once_def setTimeout_def Let_def nth_append)

lemma cancel_not_RUNNING:
  "timerState w \<noteq> RUNNING \<Longrightarrow> cancel w = (Inl ERROR_SIMPLE_TIMER_NOT_RUNNING, w)"
  by (simp add: cancel_def)

lemma cancel_RUNNING:
  assumes "timer_inv w" "timerState w = RUNNING" "timerPromise w = Some p"
  shows "fst (cancel w) = Inr None"
    and "timer_inv (snd (cancel w))"
    and "timerState (snd (cancel w)) = CANCELLED"
    and "timeouts (snd (cancel w)) = []"
    and "promises (snd (cancel w)) ! p = Fulfilled CANCELLED"
    and "resolveCalls (snd (cancel w)) = [(p, CANCELLED)]"
  using assms
  by (auto simp: cancel_def timer_inv_def clearTimeout_def emit_def resolve_def Let_def)

lemma expire_idle: "timeouts w = [] \<Longrightarrow> expire h w = w"
  by (simp add: expire_def)

lemma expire_other:
  "timer_inv w \<Longrightarrow> timerState w = RUNNING \<Longrightarrow> timerHandle w \<noteq> Some h \<Longrightarrow> expire h w = w"
  by (auto simp: expire_def timer_inv_def)

lemma expire_RUNNING:
  assumes "timer_inv w" "timerState w = RUNNING" "timerPromise w = Some p" "timerHandle w = Some h"
  shows "timer_inv (expire h w)"
    and "timerState (expire h w) = DONE"
    and "timerHandle (expire h w) = None"
    and "timerPromise (expire h w) = None"
    and "promises (expire h w) ! p = Fulfilled DONE"
    and "resolveCalls (expire h w) = [(p, DONE)]"
  using assms
  by (auto simp: expire_def timer_inv_def emit_def resolve_def Let_def)

lemma step_terminal:
  "timer_inv w \<Longrightarrow> timerState w = DONE \<or> timerState w = CANCELLED \<Longrightarrow> step e w = w"
  by (cases e) (auto simp: start_terminal cancel_not_RUNNING expire_idle timer_inv_def)

lemma exec_terminal:
  "timer_inv w \<Longrightarrow> timerState w = DONE \<or> timerState w = CANCELLED \<Longrightarrow> exec evs w = w"
  by (induction evs) (auto simp: step_terminal)

lemma step_inv: "timer_inv w \<Longrightarrow> timer_inv (step e w)"
proof (cases "timerState w")
  case SET
  assume "timer_inv w"
  with SET have idle: "timeouts w = []" by (simp add: timer_inv_def)
  from \<open>timer_inv w\<close> SET idle show ?thesis
    by (cases e) (simp_all add: start_SET cancel_not_RUNNING expire_idle)
next
  case RUNNING
  assume i: "timer_inv w"
  with RUNNING obtain p h where ph: "timerPromise w = Some p" "timerHandle w = Some h"
    by (auto simp: timer_inv_def)
  show ?thesis
  proof (cases e)
    case Start
    with RUNNING i show ?thesis by (simp add: start_RUNNING)
  next
    case Cancel
    with RUNNING i ph show ?thesis by (simp add: cancel_RUNNING)
  next
    case (Expire k)
    with RUNNING i ph show ?thesis
      by (cases "k = h") (simp_all add: expire_RUNNING expire_other)
  qed
next
  case DONE
  assume "timer_inv w"
  with DONE show ?thesis by (simp add: step_terminal)
next
  case CANCELLED
  assume "timer_inv w"
  with CANCELLED show ?thesis by (simp add: step_terminal)
qed

lemma exec_inv: "timer_inv w \<Longrightarrow> timer_inv (exec evs w)"
  by (induction evs arbitrary: w) (simp_all add: step_inv)

section \<open>Histories\<close>

lemmas run_defs = start_def cancel_def expire_def once_def emit_def resolve_def
  setTimeout_def clearTimeout_def Let_def

text \<open>
  A running timer stays as it is for as long as it is running: the only events that
  change it end the run. And the first \<open>start()\<close> of a history that leaves the timer
  running returned the promise the instance still holds.
\<close>

lemma exec_RUNNING_fixed:
  "timer_inv w \<Longrightarrow> timerState w = RUNNING \<Longrightarrow> timerState (exec evs w) = RUNNING \<Longrightarrow>
   exec evs w = w"
proof (induction evs)
  case Nil
  then show ?case by simp
next
  case (Cons e es)
  from Cons.prems obtain p h where ph: "timerPromise w = Some p" "timerHandle w = Some h"
    by (auto simp: timer_inv_def)
  have "step e w = w"
  proof (rule ccontr)
    assume moved: "step e w \<noteq> w"
    have "timerState (step e w) = DONE \<or> timerState (step e w) = CANCELLED"
    proof (cases e)
      case Start
      with moved Cons.prems show ?thesis by (simp add: start_RUNNING)
    next
      case Cancel
      with Cons.prems ph show ?thesis by (simp add: cancel_RUNNING)
    next
      case (Expire k)
      with moved Cons.prems ph show ?thesis
        by (cases "k = h") (simp_all add: expire_RUNNING expire_other)
    qed
    moreover have "timer_inv (step e w)" using Cons.prems by (simp add: step_inv)
    ultimately have "exec es (step e w) = step e w" by (rule exec_terminal [rotated])
    with Cons.prems \<open>timerState (step e w) = DONE \<or> timerState (step e w) = CANCELLED\<close>
    show False by auto
  qed
  with Cons show ?case by simp
qed

lemma first_start_SET:
  "timer_inv w \<Longrightarrow> timerState w = SET \<Longrightarrow> timerState (exec evs w) = RUNNING \<Longrightarrow>
   first_start evs w = Some (timerPromise (exec evs w))"
proof (induction evs)
  case Nil
  then show ?case by simp
next
  case (Cons e es)
  from Cons.prems have idle: "timeouts w = []" by (simp add: timer_inv_def)
  show ?case
  proof (cases e)
    case Start
    let ?w = "snd (start w)"
    from Cons.prems have r: "timer_inv ?w" "timerState ?w = RUNNING"
      "fst (start w) = Inr (Some (length (promises w)))"
      "timerPromise ?w = Some (length (promises w))"
      by (simp_all add: start_SET)
    from Cons.prems Start have "timerState (exec es ?w) = RUNNING" by simp
    with r have "exec es ?w = ?w" by (simp add: exec_RUNNING_fixed)
    with r Start show ?thesis by simp
  next
    case Cancel
    with Cons show ?thesis by (simp add: cancel_not_RUNNING)
  next
    case (Expire k)
    with Cons idle show ?thesis by (simp add: expire_idle)
  qed
qed

text \<open>
  What becomes of the promise of a running timer: an event either leaves the instance
  as it is or ends the run and fulfils the promise with the final state; so at any
  later moment the promise is pending if the timer still runs, and fulfilled with the
  final state otherwise.
\<close>

lemma step_RUNNING:
  assumes "timer_inv w" "timerState w = RUNNING" "timerPromise w = Some p"
  shows "step e w = w \<or>
         (timer_inv (step e w) \<and>
          (timerState (step e w) = DONE \<or> timerState (step e w) = CANCELLED) \<and>
          promises (step e w) ! p = Fulfilled (timerState (step e w)))"
proof -
  from assms obtain h where h: "timerHandle w = Some h" by (auto simp: timer_inv_def)
  show ?thesis
  proof (cases e)
    case Start
    with assms show ?thesis by (simp add: start_RUNNING)
  next
    case Cancel
    with assms show ?thesis by (simp add: cancel_RUNNING)
  next
    case (Expire k)
    with assms h show ?thesis
      by (cases "k = h") (simp_all add: expire_RUNNING expire_other)
  qed
qed

lemma exec_RUNNING_settles:
  assumes "timer_inv w" "timerState w = RUNNING" "timerPromise w = Some p"
  shows "timerState (exec evs w) \<noteq> SET \<and>
         promises (exec evs w) ! p =
           (if timerState (exec evs w) = RUNNING then Pending
            else Fulfilled (timerState (exec evs w)))"
proof (induction evs)
  case Nil
  from assms show ?case by (auto simp: timer_inv_def)
next
  case (Cons e es)
  from step_RUNNING [OF assms, of e] show ?case
  proof
    assume "step e w = w"
    with Cons show ?thesis by simp
  next
    assume f: "timer_inv (step e w) \<and>
          (timerState (step e w) = DONE \<or> timerState (step e w) = CANCELLED) \<and>
          promises (step e w) ! p = Fulfilled (timerState (step e w))"
    then have "exec es (step e w) = step e w" by (simp add: exec_terminal)
    with f show ?thesis by auto
  qed
qed

section \<open>Claims about construction\<close>

text \<open>
  C4. For every whole number \<open>t\<close> from one upwards, \<open>new SimpleTimer(t)\<close> succeeds:
  the instance is in state SET, its stored timeout is \<open>t\<close>, and nothing has been
  scheduled (no timeout is pending in the run-time, and the instance holds neither a
  timeout handle nor a promise).
\<close>

theorem constructor_accepts_whole_numbers_from_one:
  fixes t :: int
  assumes "1 \<le> t"
  shows "\<exists>w. constructor (JSNumber (Finite (of_int t))) = Inr w \<and>
           timerState w = SET \<and>
           timerTimeout w = JSNumber (Finite (of_int t)) \<and>
           timeouts w = [] \<and> timerHandle w = None \<and> timerPromise w = None"
  using assms by (simp add: constructor_whole)

theorem constructor_accepts_whole_numbers_from_one_witness:
  "(1::int) \<le> 200 \<and>
   (\<exists>w. constructor (JSNumber (Finite 200)) = Inr w \<and>
           timerState w = SET \<and>
           timerTimeout w = JSNumber (Finite 200) \<and>
           timeouts w = [] \<and> timerHandle w = None \<and> timerPromise w = None)"
  using constructor_accepts_whole_numbers_from_one [of 200] by simp

text \<open>
  C5. The constructor throws the type error exactly for the values that are not a whole
  number (a value that is no Number at all, NaN, an infinity, a fraction), the bounds
  error exactly for the whole numbers below one, and succeeds exactly for the whole
  numbers from one upwards; so it throws for no other input, and nothing else.
\<close>

theorem constructor_raises_iff:
  "((constructor v = Inl ERROR_SIMPLE_TIMER_TIMEOUT_TYPE_INVALID) =
      (\<nexists>n::int. v = JSNumber (Finite (of_int n)))) \<and>
   ((constructor v = Inl ERROR_SIMPLE_TIMER_TIMEOUT_OUT_OF_BOUNDS) =
      (\<exists>n::int. n < 1 \<and> v = JSNumber (Finite (of_int n)))) \<and>
   ((\<exists>w. constructor v = Inr w) =
      (\<exists>n::int. 1 \<le> n \<and> v = JSNumber (Finite (of_int n))))"
proof (cases "\<exists>n::int. v = JSNumber (Finite (of_int n))")
  case True
  then obtain n :: int where "v = JSNumber (Finite (of_int n))" by blast
  then show ?thesis by (auto simp: constructor_whole)
next
  case False
  then show ?thesis by (simp add: constructor_not_whole)
qed

text \<open>
  C10. The whole-number test comes first: a value that is not a whole number gets the
  type error and never the bounds error, whatever its comparison with one would give;
  this covers the values that fail both tests, such as \<open>-0.5\<close>, minus infinity or
  a value that is not a Number.
\<close>

theorem type_check_precedes_bounds_check:
  assumes "\<nexists>n::int. v = JSNumber (Finite (of_int n))"
  shows "constructor v = Inl ERROR_SIMPLE_TIMER_TIMEOUT_TYPE_INVALID \<and>
         constructor v \<noteq> Inl ERROR_SIMPLE_TIMER_TIMEOUT_OUT_OF_BOUNDS"
  using assms by (simp add: constructor_not_whole)

theorem type_check_precedes_bounds_check_witness:
  "less_than (JSNumber (Finite (- 1 / 2))) (JSNumber (Finite 1)) \<and>
   constructor (JSNumber (Finite (- 1 / 2))) = Inl ERROR_SIMPLE_TIMER_TIMEOUT_TYPE_INVALID \<and>
   constructor (JSNumber (Finite (- 1 / 2))) \<noteq> Inl ERROR_SIMPLE_TIMER_TIMEOUT_OUT_OF_BOUNDS"
proof -
  have "\<nexists>n::int. JSNumber (Finite (- 1 / 2)) = JSNumber (Finite (of_int n))"
  proof
    assume "\<exists>n::int. JSNumber (Finite (- 1 / 2)) = JSNumber (Finite (of_int n))"
    then obtain n :: int where "(- 1 / 2 :: rat) = of_int n" by auto
    then have "(- 1 / 2 :: rat) \<in> \<int>" by (metis Ints_of_int)
    then show False by simp
  qed
  from type_check_precedes_bounds_check [OF this] show ?thesis by simp
qed

section \<open>Claims about start, cancel and expiry\<close>

text \<open>
  C2. Joining a running timer: whenever the instance is in state RUNNING, after any
  history since its construction, \<open>start()\<close> returns the very promise \<open>p\<close> that
  the first \<open>start()\<close> of that history returned, and leaves the whole state as it
  was: no state transition, no further timeout scheduled. That promise is still
  pending. It is the one promise every caller holds, and it does settle, with the
  value of the final state: when the timer's own timeout \<open>h\<close> fires it is
  fulfilled with DONE, when \<open>cancel()\<close> is called it is fulfilled with CANCELLED, and
  after any further events \<open>evs'\<close> it is pending if the timer is still running and
  fulfilled with the final state (DONE or CANCELLED) if it is not. So all callers
  observe the same value at the same moment.
\<close>

theorem start_while_running_joins:
  assumes "constructor t = Inr w0" and "w = exec evs w0" and "timerState w = RUNNING"
  shows "\<exists>p h. first_start evs w0 = Some (Some p) \<and> start w = (Inr (Some p), w) \<and>
           p < length (promises w) \<and> promises w ! p = Pending \<and>
           timerHandle w = Some h \<and>
           promises (expire h w) ! p = Fulfilled DONE \<and>
           promises (snd (cancel w)) ! p = Fulfilled CANCELLED \<and>
           timerState (exec evs' w) \<noteq> SET \<and>
           promises (exec evs' w) ! p =
             (if timerState (exec evs' w) = RUNNING then Pending
              else Fulfilled (timerState (exec evs' w)))"
proof -
  from assms(1) have i0: "timer_inv w0" "timerState w0 = SET" by (simp_all add: constructor_inv)
  with assms have first: "first_start evs w0 = Some (timerPromise w)"
    by (simp add: first_start_SET)
  from i0 assms have i: "timer_inv w" by (simp add: exec_inv)
  with assms(3) obtain p h where ph: "timerPromise w = Some p" "timerHandle w = Some h"
    and pend: "p < length (promises w)" "promises w ! p = Pending"
    by (auto simp: timer_inv_def)
  from assms(3) have join: "start w = (Inr (timerPromise w), w)" by (rule start_RUNNING)
  from i assms(3) ph have fired: "promises (expire h w) ! p = Fulfilled DONE"
    by (rule expire_RUNNING(5))
  from i assms(3) ph(1) have cancelled: "promises (snd (cancel w)) ! p = Fulfilled CANCELLED"
    by (rule cancel_RUNNING(5))
  from exec_RUNNING_settles [OF i assms(3) ph(1), of evs'] first join ph pend fired cancelled
  show ?thesis by simp
qed

theorem start_while_running_joins_witness:
  "constructor (JSNumber (Finite 200)) = Inr timer_200 \<and>
   timerState (exec [Start, Start] timer_200) = RUNNING \<and>
   timerState (exec [Start, Expire 0, Start] (exec [Start, Start] timer_200)) = DONE \<and>
   (\<exists>p h. first_start [Start, Start] timer_200 = Some (Some p) \<and>
        start (exec [Start, Start] timer_200) = (Inr (Some p), exec [Start, Start] timer_200) \<and>
        p < length (promises (exec [Start, Start] timer_200)) \<and>
        promises (exec [Start, Start] timer_200) ! p = Pending \<and>
        timerHandle (exec [Start, Start] timer_200) = Some h \<and>
        promises (expire h (exec [Start, Start] timer_200)) ! p = Fulfilled DONE \<and>
        promises (snd (cancel (exec [Start, Start] timer_200))) ! p = Fulfilled CANCELLED \<and>
        promises (exec [Start, Expire 0, Start] (exec [Start, Start] timer_200)) ! p =
          Fulfilled DONE)"
proof -
  have c: "constructor (JSNumber (Finite 200)) = Inr timer_200"
    by (simp add: constructor_def)
  have r: "timerState (exec [Start, Start] timer_200) = RUNNING"
    by (simp add: run_defs)
  have d: "timerState (exec [Start, Expire 0, Start] (exec [Start, Start] timer_200)) = DONE"
    by (simp add: run_defs)
  from start_while_running_joins [OF c refl r, of "[Start, Expire 0, Start]"]
  obtain p h where
    "first_start [Start, Start] timer_200 = Some (Some p)"
    "start (exec [Start, Start] timer_200) = (Inr (Some p), exec [Start, Start] timer_200)"
    "p < length (promises (exec [Start, Start] timer_200))"
    "promises (exec [Start, Start] timer_200) ! p = Pending"
    "timerHandle (exec [Start, Start] timer_200) = Some h"
    "promises (expire h (exec [Start, Start] timer_200)) ! p = Fulfilled DONE"
    "promises (snd (cancel (exec [Start, Start] timer_200))) ! p = Fulfilled CANCELLED"
    "promises (exec [Start, Expire 0, Start] (exec [Start, Start] timer_200)) ! p =
       (if timerState (exec [Start, Expire 0, Start] (exec [Start, Start] timer_200)) = RUNNING
        then Pending
        else Fulfilled (timerState (exec [Start, Expire 0, Start] (exec [Start, Start] timer_200))))"
    by blast
  with c r d show ?thesis by (intro conjI exI [of _ p] exI [of _ h]) simp_all
qed

text \<open>
  C3. Final states are final: once an instance has reached DONE or CANCELLED,
  \<open>start()\<close> throws \<open>ERROR_SIMPLE_TIMER_NOT_IN_SET_OR_RUNNING_STATES\<close>, \<open>cancel()\<close>
  throws \<open>ERROR_SIMPLE_TIMER_NOT_RUNNING\<close>, and after any further events (calls of
  either method, timeouts the run-time could fire) the state is still the same.
\<close>

theorem terminal_states_are_final:
  assumes "constructor t = Inr w0" and "w = exec evs w0"
    and "timerState w = DONE \<or> timerState w = CANCELLED"
  shows "fst (start w) = Inl ERROR_SIMPLE_TIMER_NOT_IN_SET_OR_RUNNING_STATES \<and>
         fst (cancel w) = Inl ERROR_SIMPLE_TIMER_NOT_RUNNING \<and>
         timerState (exec evs' w) = timerState w"
proof -
  from assms(1,2) have "timer_inv w" by (simp add: constructor_inv exec_inv)
  with assms(3) have "exec evs' w = w" by (simp add: exec_terminal)
  moreover from assms(3) have "timerState w \<noteq> RUNNING" by auto
  ultimately show ?thesis using assms(3) by (simp add: start_terminal cancel_not_RUNNING)
qed

theorem terminal_states_are_final_witness:
  "constructor (JSNumber (Finite 200)) = Inr timer_200 \<and>
   timerState (exec [Start, Expire 0] timer_200) = DONE \<and>
   fst (start (exec [Start, Expire 0] timer_200)) =
     Inl ERROR_SIMPLE_TIMER_NOT_IN_SET_OR_RUNNING_STATES \<and>
   fst (cancel (exec [Start, Expire 0] timer_200)) = Inl ERROR_SIMPLE_TIMER_NOT_RUNNING \<and>
   timerState (exec [Start, Cancel, Expire 0] (exec [Start, Expire 0] timer_200)) = DONE \<and>
   timerState (exec [Start, Cancel] timer_200) = CANCELLED \<and>
   fst (start (exec [Start, Cancel] timer_200)) =
     Inl ERROR_SIMPLE_TIMER_NOT_IN_SET_OR_RUNNING_STATES \<and>
   fst (cancel (exec [Start, Cancel] timer_200)) = Inl ERROR_SIMPLE_TIMER_NOT_RUNNING \<and>
   timerState (exec [Expire 0, Start, Cancel] (exec [Start, Cancel] timer_200)) = CANCELLED"
proof -
  have c: "constructor (JSNumber (Finite 200)) = Inr timer_200"
    by (simp add: constructor_def)
  have d: "timerState (exec [Start, Expire 0] timer_200) = DONE"
    by (simp add: run_defs)
  have x: "timerState (exec [Start, Cancel] timer_200) = CANCELLED"
    by (simp add: run_defs)
  from terminal_states_are_final [OF c refl disjI1 [OF d], of "[Start, Cancel, Expire 0]"]
    terminal_states_are_final [OF c refl disjI2 [OF x], of "[Expire 0, Start, Cancel]"]
    c d x
  show ?thesis by simp
qed

text \<open>
  C6. A call that throws changes nothing: whenever \<open>start()\<close> or \<open>cancel()\<close> throws,
  in any state whatever, the state it leaves is the state it found, field by field
  (so the timer state, the promise and the timeout handle are the same). In
  particular \<open>cancel()\<close> on a freshly constructed instance throws
  \<open>ERROR_SIMPLE_TIMER_NOT_RUNNING\<close> and the instance is still in state SET.
\<close>

theorem failed_call_changes_nothing:
  "(fst (start w) = Inl e \<longrightarrow> snd (start w) = w) \<and>
   (fst (cancel w) = Inl e \<longrightarrow> snd (cancel w) = w) \<and>
   (constructor t = Inr w0 \<longrightarrow>
      cancel w0 = (Inl ERROR_SIMPLE_TIMER_NOT_RUNNING, w0) \<and> timerState w0 = SET)"
proof (intro conjI impI)
  assume "fst (start w) = Inl e"
  then show "snd (start w) = w"
    by (cases "timerState w") (simp_all add: start_def Let_def split_def)
next
  assume "fst (cancel w) = Inl e"
  then show "snd (cancel w) = w"
    by (cases "timerState w") (simp_all add: cancel_def Let_def)
next
  assume "constructor t = Inr w0"
  then show "cancel w0 = (Inl ERROR_SIMPLE_TIMER_NOT_RUNNING, w0)"
    by (simp add: constructor_inv cancel_not_RUNNING)
next
  assume "constructor t = Inr w0"
  then show "timerState w0 = SET" by (simp add: constructor_inv)
qed

theorem failed_call_changes_nothing_witness:
  "fst (start (exec [Start, Expire 0] timer_200)) =
     Inl ERROR_SIMPLE_TIMER_NOT_IN_SET_OR_RUNNING_STATES \<and>
   snd (start (exec [Start, Expire 0] timer_200)) = exec [Start, Expire 0] timer_200 \<and>
   fst (cancel (exec [Start, Expire 0] timer_200)) = Inl ERROR_SIMPLE_TIMER_NOT_RUNNING \<and>
   snd (cancel (exec [Start, Expire 0] timer_200)) = exec [Start, Expire 0] timer_200 \<and>
   constructor (JSNumber (Finite 200)) = Inr timer_200 \<and>
   cancel timer_200 = (Inl ERROR_SIMPLE_TIMER_NOT_RUNNING, timer_200) \<and>
   timerState timer_200 = SET"
proof -
  have c: "constructor (JSNumber (Finite 200)) = Inr timer_200"
    by (simp add: constructor_def)
  have s: "fst (start (exec [Start, Expire 0] timer_200)) =
             Inl ERROR_SIMPLE_TIMER_NOT_IN_SET_OR_RUNNING_STATES"
    by (simp add: run_defs)
  have k: "fst (cancel (exec [Start, Expire 0] timer_200)) = Inl ERROR_SIMPLE_TIMER_NOT_RUNNING"
    by (simp add: run_defs)
  from failed_call_changes_nothing
         [of "exec [Start, Expire 0] timer_200"
             ERROR_SIMPLE_TIMER_NOT_IN_SET_OR_RUNNING_STATES "JSNumber (Finite 200)" timer_200]
       failed_call_changes_nothing
         [of "exec [Start, Expire 0] timer_200"
             ERROR_SIMPLE_TIMER_NOT_RUNNING "JSNumber (Finite 200)" timer_200]
       c s k
  show ?thesis by blast
qed

text \<open>
  C8. After construction and after any sequence of \<open>start()\<close>, \<open>cancel()\<close> and
  expiry events, the instance holds a promise (\<open>#timerPromise\<close> is not \<open>null\<close>)
  if and only if its state is RUNNING.
\<close>

theorem pending_wait_iff_running:
  assumes "constructor t = Inr w0"
  shows "(timerPromise (exec evs w0) \<noteq> None) = (timerState (exec evs w0) = RUNNING)"
proof -
  from assms have "timer_inv (exec evs w0)" by (simp add: constructor_inv exec_inv)
  then show ?thesis
    by (cases "timerState (exec evs w0)") (auto simp: timer_inv_def)
qed

theorem pending_wait_iff_running_witness:
  "constructor (JSNumber (Finite 200)) = Inr timer_200 \<and>
   (timerPromise (exec [Start] timer_200) \<noteq> None) =
     (timerState (exec [Start] timer_200) = RUNNING) \<and>
   timerState (exec [Start] timer_200) = RUNNING \<and>
   (timerPromise (exec [Start, Cancel] timer_200) \<noteq> None) =
     (timerState (exec [Start, Cancel] timer_200) = RUNNING) \<and>
   timerState (exec [Start, Cancel] timer_200) = CANCELLED"
proof -
  have c: "constructor (JSNumber (Finite 200)) = Inr timer_200"
    by (simp add: constructor_def)
  have r: "timerState (exec [Start] timer_200) = RUNNING"
    by (simp add: run_defs)
  have x: "timerState (exec [Start, Cancel] timer_200) = CANCELLED"
    by (simp add: run_defs)
  from pending_wait_iff_running [OF c, of "[Start]"]
    pending_wait_iff_running [OF c, of "[Start, Cancel]"] c r x
  show ?thesis by blast
qed

text \<open>
  C7. Cancelling before the expiry: a running timer holds a pending promise \<open>p\<close> and
  the handle \<open>h\<close> of its pending timeout. \<open>cancel()\<close> then does not throw, and in
  the state it leaves, and after any further events \<open>evs'\<close>: the timeout \<open>h\<close> is no
  longer pending, so the run-time cannot fire it (firing it changes nothing); the
  state is CANCELLED; the promise is fulfilled with CANCELLED; and the only call of
  \<open>resolve\<close> ever made is the one with CANCELLED, so DONE is never delivered.
\<close>

theorem cancel_before_expiry:
  assumes "constructor t = Inr w0" and "w = exec evs w0" and "timerState w = RUNNING"
    and "w' = exec evs' (snd (cancel w))"
  shows "\<exists>p h. timerPromise w = Some p \<and> timerHandle w = Some h \<and>
           map_of (timeouts w) h \<noteq> None \<and> promises w ! p = Pending \<and>
           (\<exists>r. fst (cancel w) = Inr r) \<and>
           map_of (timeouts w') h = None \<and> expire h w' = w' \<and>
           timerState w' = CANCELLED \<and>
           promises w' ! p = Fulfilled CANCELLED \<and>
           resolveCalls w' = [(p, CANCELLED)]"
proof -
  from assms(1,2) have i: "timer_inv w" by (simp add: constructor_inv exec_inv)
  with assms(3) obtain p h where ph: "timerPromise w = Some p" "timerHandle w = Some h"
    and pend: "map_of (timeouts w) h \<noteq> None" "promises w ! p = Pending"
    by (auto simp: timer_inv_def)
  let ?c = "snd (cancel w)"
  from i assms(3) ph have c: "fst (cancel w) = Inr None" "timer_inv ?c"
    "timerState ?c = CANCELLED" "timeouts ?c = []"
    "promises ?c ! p = Fulfilled CANCELLED" "resolveCalls ?c = [(p, CANCELLED)]"
    by (simp_all add: cancel_RUNNING)
  then have "w' = ?c" using assms(4) by (simp add: exec_terminal)
  with c ph pend show ?thesis by (simp add: expire_idle)
qed

theorem cancel_before_expiry_witness:
  "constructor (JSNumber (Finite 200)) = Inr timer_200 \<and>
   timerState (exec [Start] timer_200) = RUNNING \<and>
   (\<exists>p h. timerPromise (exec [Start] timer_200) = Some p \<and>
      timerHandle (exec [Start] timer_200) = Some h \<and>
      map_of (timeouts (exec [Start] timer_200)) h \<noteq> None \<and>
      promises (exec [Start] timer_200) ! p = Pending \<and>
      (\<exists>r. fst (cancel (exec [Start] timer_200)) = Inr r) \<and>
      map_of (timeouts (exec [Expire 0, Start, Cancel] (snd (cancel (exec [Start] timer_200))))) h = None \<and>
      expire h (exec [Expire 0, Start, Cancel] (snd (cancel (exec [Start] timer_200)))) =
        exec [Expire 0, Start, Cancel] (snd (cancel (exec [Start] timer_200))) \<and>
      timerState (exec [Expire 0, Start, Cancel] (snd (cancel (exec [Start] timer_200)))) = CANCELLED \<and>
      promises (exec [Expire 0, Start, Cancel] (snd (cancel (exec [Start] timer_200)))) ! p =
        Fulfilled CANCELLED \<and>
      resolveCalls (exec [Expire 0, Start, Cancel] (snd (cancel (exec [Start] timer_200)))) =
        [(p, CANCELLED)])"
proof -
  have c: "constructor (JSNumber (Finite 200)) = Inr timer_200"
    by (simp add: constructor_def)
  have r: "timerState (exec [Start] timer_200) = RUNNING"
    by (simp add: run_defs)
  from cancel_before_expiry [OF c refl r refl, of "[Expire 0, Start, Cancel]"] c r
  show ?thesis by blast
qed

text \<open>
  C9. Expiry: when the timeout \<open>h\<close> of a running timer fires (no cancellation has
  ended the run, and no \<open>resolve\<close> has been called yet), the handle and the promise
  fields are cleared, the state becomes DONE, the promise \<open>p\<close> is fulfilled with
  DONE, and that call of \<open>resolve\<close> is the only one of the instance's life: it is
  the only one recorded then, and after any further events \<open>evs'\<close>.
\<close>

theorem expiry_transition:
  assumes "constructor t = Inr w0" and "w = exec evs w0" and "timerState w = RUNNING"
  shows "\<exists>p h. timerPromise w = Some p \<and> timerHandle w = Some h \<and>
           resolveCalls w = [] \<and>
           timerHandle (expire h w) = None \<and> timerPromise (expire h w) = None \<and>
           timerState (expire h w) = DONE \<and>
           promises (expire h w) ! p = Fulfilled DONE \<and>
           resolveCalls (expire h w) = [(p, DONE)] \<and>
           resolveCalls (exec evs' (expire h w)) = [(p, DONE)]"
proof -
  from assms(1,2) have i: "timer_inv w" by (simp add: constructor_inv exec_inv)
  with assms(3) obtain p h where ph: "timerPromise w = Some p" "timerHandle w = Some h"
    and quiet: "resolveCalls w = []"
    by (auto simp: timer_inv_def)
  let ?d = "expire h w"
  from i assms(3) ph have d: "timer_inv ?d" "timerState ?d = DONE" "timerHandle ?d = None"
    "timerPromise ?d = None" "promises ?d ! p = Fulfilled DONE" "resolveCalls ?d = [(p, DONE)]"
    by (simp_all add: expire_RUNNING)
  then have "exec evs' ?d = ?d" by (simp add: exec_terminal)
  with d ph quiet show ?thesis by simp
qed

theorem expiry_transition_witness:
  "constructor (JSNumber (Finite 200)) = Inr timer_200 \<and>
   timerState (exec [Start] timer_200) = RUNNING \<and>
   (\<exists>p h. timerPromise (exec [Start] timer_200) = Some p \<and>
      timerHandle (exec [Start] timer_200) = Some h \<and>
      resolveCalls (exec [Start] timer_200) = [] \<and>
      timerHandle (expire h (exec [Start] timer_200)) = None \<and>
      timerPromise (expire h (exec [Start] timer_200)) = None \<and>
      timerState (expire h (exec [Start] timer_200)) = DONE \<and>
      promises (expire h (exec [Start] timer_200)) ! p = Fulfilled DONE \<and>
      resolveCalls (expire h (exec [Start] timer_200)) = [(p, DONE)] \<and>
      resolveCalls (exec [Cancel, Expire 0, Start] (expire h (exec [Start] timer_200))) =
        [(p, DONE)])"
proof -
  have c: "constructor (JSNumber (Finite 200)) = Inr timer_200"
    by (simp add: constructor_def)
  have r: "timerState (exec [Start] timer_200) = RUNNING"
    by (simp add: run_defs)
  from expiry_transition [OF c refl r, of "[Cancel, Expire 0, Start]"] c r
  show ?thesis by blast
qed

text \<open>
  C1. What \<open>cancel()\<close> returns. The claim (and the method's own documentation) has
  it return the promise that \<open>start()\<close> returned. It does not: \<open>emit\<close> runs the
  \<open>timercancelled\<close> listener before \<open>cancel\<close> reads \<open>#timerPromise\<close>, and the
  listener has set that field to \<open>null\<close>. For \<open>new SimpleTimer(200)\<close>, \<open>start()\<close>
  returns promise \<open>0\<close>, which the instance then holds, and \<open>cancel()\<close> returns
  \<open>null\<close>, although it has fulfilled promise \<open>0\<close> with CANCELLED.
\<close>

theorem cancel_returns_null:
  "constructor (JSNumber (Finite 200)) = Inr timer_200 \<and>
   fst (start timer_200) = Inr (Some 0) \<and>
   timerState (snd (start timer_200)) = RUNNING \<and>
   timerPromise (snd (start timer_200)) = Some 0 \<and>
   fst (cancel (snd (start timer_200))) = Inr None \<and>
   promises (snd (cancel (snd (start timer_200)))) ! 0 = Fulfilled CANCELLED"
  by (simp add: constructor_def run_defs)

end
